theory Spec2Isabelle
  imports Main "HOL-Library.Multiset"
begin

section \<open>The schema of sandbox.py\<close>

text \<open>
  Every mapped class of the script is a table; a row is a record whose fields are the
  columns of the class. A column that the source does not declare \<open>nullable=False\<close>
  (and that is no primary key) may hold NULL, so it is an \<open>option\<close>. Joined-table
  inheritance (\<open>TacoTruck\<close>, \<open>Employee\<close>, \<open>Customer\<close>) gives the subclass a table of its
  own whose primary key is the key of the base row.
\<close>

record food_truck_row =
  ft_id :: nat
  ft_type :: string
  ft_name :: string

record person_row =
  p_id :: nat
  p_type :: string
  first_name :: "string option"
  last_name :: "string option"

record employee_row =
  e_id :: nat
  e_food_truck_id :: "nat option"

record menu_item_row =
  mi_id :: nat
  mi_price :: "int option"
  mi_name :: "string option"
  mi_food_truck_id :: "nat option"

record order_row =
  o_id :: nat
  o_employee_id :: "nat option"
  o_customer_id :: "nat option"

record menu_item_order_row =
  mio_menu_item_id :: "nat option"
  mio_order_id :: "nat option"

text \<open>
  The store is the in-memory database behind \<open>db.session\<close>: one list of rows for each
  table that \<open>db.create_all()\<close> creates. \<open>taco_trucks\<close> and \<open>customers\<close> hold only the
  primary key of the base row.
\<close>

record store =
  food_trucks :: "food_truck_row list"
  taco_trucks :: "nat list"
  persons :: "person_row list"
  employees :: "employee_row list"
  customers :: "nat list"
  menu_items :: "menu_item_row list"
  orders :: "order_row list"
  menu_item_orders :: "menu_item_order_row list"

definition create_all :: store where
  "create_all =
     \<lparr>food_trucks = [], taco_trucks = [], persons = [], employees = [], customers = [],
      menu_items = [], orders = [], menu_item_orders = []\<rparr>"

datatype error = IntegrityError | AttributeError | IndexError

subsection \<open>Person.name\<close>

text \<open>
  \<^verbatim>\<open>return f"{self.last_name or 'NA'}, {self.first_name or 'NA'}"\<close>
  Python's \<open>or\<close> yields its right operand when the left one is falsy; for a column of
  strings the falsy values are \<open>None\<close> and the empty string.
\<close>

definition or_NA :: "string option \<Rightarrow> string" where
  "or_NA x = (case x of None \<Rightarrow> ''NA'' | Some s \<Rightarrow> (if s = [] then ''NA'' else s))"

definition name :: "person_row \<Rightarrow> string" where
  "name p = or_NA (last_name p) @ '', '' @ or_NA (first_name p)"

text \<open>
  The display name as the specification words it: "last, first", with "NA" in the place
  of a part that is missing.
\<close>

definition spec_display_name :: "person_row \<Rightarrow> string" where
  "spec_display_name p =
     (case last_name p of None \<Rightarrow> ''NA'' | Some l \<Rightarrow> l) @ '', '' @
     (case first_name p of None \<Rightarrow> ''NA'' | Some f \<Rightarrow> f)"

definition blank_to_missing :: "string option \<Rightarrow> string option" where
  "blank_to_missing x = (if x = Some [] then None else x)"

subsection \<open>Writing: the unit of work behind \<open>db.session.add\<close> and \<open>commit\<close>\<close>

text \<open>
  An integer primary key that the script never sets is chosen by the engine: one more
  than the largest key of the table, 1 for an empty table.
\<close>

definition next_id :: "nat list \<Rightarrow> nat" where
  "next_id ids = Suc (fold max ids 0)"

text \<open>The transient objects the script builds before they are flushed.\<close>

record new_menu_item =
  nmi_name :: "string option"
  nmi_price :: "int option"

record new_person =
  np_first_name :: "string option"
  np_last_name :: "string option"

datatype truck_class = FoodTruck | TacoTruck

fun polymorphic_identity :: "truck_class \<Rightarrow> string" where
  "polymorphic_identity FoodTruck = ''food_truck''"
| "polymorphic_identity TacoTruck = ''taco_truck''"

record new_food_truck =
  nft_class :: truck_class
  nft_name :: "string option"
  nft_menu_items :: "new_menu_item list"
  nft_employees :: "new_person list"

record new_order =
  no_menu_items :: "nat list"
  no_customer :: "nat option"
  no_employee :: "nat option"

text \<open>
  INSERT of one \<open>MenuItem\<close>. \<open>food_truck_id\<close> is the key of the truck whose
  \<open>menu_items\<close> collection holds the item, NULL for an item in no collection: the
  column (line 105) carries a foreign key and no NOT NULL.
\<close>

definition insert_menu_item :: "nat option \<Rightarrow> new_menu_item \<Rightarrow> store \<Rightarrow> store" where
  "insert_menu_item fk m st =
     st\<lparr>menu_items := menu_items st @
          [\<lparr>mi_id = next_id (map mi_id (menu_items st)), mi_price = nmi_price m,
            mi_name = nmi_name m, mi_food_truck_id = fk\<rparr>]\<rparr>"

text \<open>
  INSERT of a \<open>Person\<close> subclass: a row of \<open>person\<close> with the polymorphic identity of the
  class, and a row of the subclass table under the same key.
\<close>

definition insert_person :: "string \<Rightarrow> new_person \<Rightarrow> store \<Rightarrow> store" where
  "insert_person ty p st =
     st\<lparr>persons := persons st @
          [\<lparr>p_id = next_id (map p_id (persons st)), p_type = ty,
            first_name = np_first_name p, last_name = np_last_name p\<rparr>]\<rparr>"

definition insert_employee :: "nat option \<Rightarrow> new_person \<Rightarrow> store \<Rightarrow> store" where
  "insert_employee fk p st =
     (let pid = next_id (map p_id (persons st)); st' = insert_person ''employee'' p st
      in st'\<lparr>employees := employees st' @ [\<lparr>e_id = pid, e_food_truck_id = fk\<rparr>]\<rparr>)"

definition insert_customer :: "new_person \<Rightarrow> store \<Rightarrow> nat \<times> store" where
  "insert_customer p st =
     (let pid = next_id (map p_id (persons st)); st' = insert_person ''customer'' p st
      in (pid, st'\<lparr>customers := customers st' @ [pid]\<rparr>))"

text \<open>
  \<open>db.session.add(taco_truck); db.session.commit()\<close>, for a truck of either class.
  \<open>name\<close> is \<open>unique=True, nullable=False\<close> (line 40): a NULL or an already stored
  name makes the INSERT fail, the transaction is rolled back and the exception
  propagates. Otherwise the truck is written to \<open>food_truck\<close> with the polymorphic
  identity of its class (a \<open>TacoTruck\<close> to \<open>taco_truck\<close> as well), followed by the
  objects of its two collections, which take its key. The result is the error or the
  key of the new truck, and the store afterwards.
\<close>

definition commit_food_truck :: "new_food_truck \<Rightarrow> store \<Rightarrow> (error + nat) \<times> store" where
  "commit_food_truck t st =
     (case nft_name t of
        None \<Rightarrow> (Inl IntegrityError, st)
      | Some n \<Rightarrow>
          if n \<in> set (map ft_name (food_trucks st)) then (Inl IntegrityError, st)
          else
            let fid = next_id (map ft_id (food_trucks st));
                st1 = st\<lparr>food_trucks := food_trucks st @
                            [\<lparr>ft_id = fid, ft_type = polymorphic_identity (nft_class t),
                              ft_name = n\<rparr>],
                         taco_trucks := taco_trucks st @
                            (if nft_class t = TacoTruck then [fid] else [])\<rparr>;
                st2 = fold (insert_employee (Some fid)) (nft_employees t) st1;
                st3 = fold (insert_menu_item (Some fid)) (nft_menu_items t) st2
            in (Inr fid, st3))"

text \<open>
  \<open>db.session.add_all(orders); db.session.commit()\<close>: one row of \<open>order\<close> for each
  object, and one row of the association table for each member of its \<open>menu_items\<close>.
  The rows are written in the order of the lists; the unit of work promises no order
  among the rows of the association table.
\<close>

definition insert_order :: "new_order \<Rightarrow> store \<Rightarrow> store" where
  "insert_order n st =
     (let oid = next_id (map o_id (orders st))
      in st\<lparr>orders := orders st @
               [\<lparr>o_id = oid, o_employee_id = no_employee n, o_customer_id = no_customer n\<rparr>],
            menu_item_orders := menu_item_orders st @
               map (\<lambda>i. \<lparr>mio_menu_item_id = Some i, mio_order_id = Some oid\<rparr>)
                 (no_menu_items n)\<rparr>)"

definition commit_orders :: "new_order list \<Rightarrow> store \<Rightarrow> store" where
  "commit_orders ns st = fold insert_order ns st"

subsection \<open>Reading: joins, eager loading and the identity map\<close>

text \<open>
  \<open>Order.menu_items\<close> goes through the association table (\<open>secondary=menu_item_orders\<close>,
  line 121): the menu items of the order with key \<open>oid\<close>. A NULL never equals a key.
\<close>

definition order_menu_items :: "store \<Rightarrow> nat \<Rightarrow> menu_item_row list" where
  "order_menu_items st oid =
     [m. j \<leftarrow> menu_item_orders st, mio_order_id j = Some oid,
         m \<leftarrow> menu_items st, mio_menu_item_id j = Some (mi_id m)]"

text \<open>
  Lines 171 to 173 and 179: \<open>query(Order).join(Order.menu_items)
  .join(MenuItem.food_truck).filter(MenuItem.price == price)\<close>, two inner joins and the
  WHERE clause. The rows come in the order of a nested loop over the tables; the
  engine promises no order.
\<close>

definition inner_rows ::
  "store \<Rightarrow> int \<Rightarrow> (order_row \<times> menu_item_row \<times> food_truck_row) list" where
  "inner_rows st price =
     [(od, m, f). od \<leftarrow> orders st, m \<leftarrow> order_menu_items st (o_id od),
                 f \<leftarrow> food_trucks st, mi_food_truck_id m = Some (ft_id f),
                 mi_price m = Some price]"

text \<open>The three relationships that the options of the query load, as joins.\<close>

definition order_customer :: "store \<Rightarrow> order_row \<Rightarrow> person_row list" where
  "order_customer st od =
     [p. c \<leftarrow> customers st, o_customer_id od = Some c, p \<leftarrow> persons st, p_id p = c]"

definition order_employee :: "store \<Rightarrow> order_row \<Rightarrow> (person_row \<times> employee_row) list" where
  "order_employee st od =
     [(p, e). e \<leftarrow> employees st, o_employee_id od = Some (e_id e),
              p \<leftarrow> persons st, p_id p = e_id e]"

definition employee_food_truck :: "store \<Rightarrow> employee_row \<Rightarrow> food_truck_row list" where
  "employee_food_truck st e =
     [f. f \<leftarrow> food_trucks st, e_food_truck_id e = Some (ft_id f)]"

text \<open>A LEFT OUTER JOIN keeps a row that has no partner and fills its columns with NULL.\<close>

definition left_outer :: "'a list \<Rightarrow> 'a option list" where
  "left_outer xs = (if xs = [] then [None] else map Some xs)"

datatype load_option =
  Joinedload_menu_items | Joinedload_customer | Joinedload_employee_food_truck

record query =
  q_options :: "load_option list"
  q_price :: int

text \<open>An attribute of a loaded object is populated by the query, or left for a lazy load.\<close>

datatype 'a attr = Unloaded | Loaded 'a

record result_row =
  rr_order :: order_row
  rr_menu_item :: "menu_item_row option attr"
  rr_customer :: "person_row option attr"
  rr_employee :: "(person_row \<times> employee_row \<times> food_truck_row option) option attr"

definition menu_item_cols :: "store \<Rightarrow> load_option list \<Rightarrow> order_row \<Rightarrow> menu_item_row option attr list" where
  "menu_item_cols st opts od =
     (if Joinedload_menu_items \<in> set opts
      then map Loaded (left_outer (order_menu_items st (o_id od))) else [Unloaded])"

definition customer_cols :: "store \<Rightarrow> load_option list \<Rightarrow> order_row \<Rightarrow> person_row option attr list" where
  "customer_cols st opts od =
     (if Joinedload_customer \<in> set opts
      then map Loaded (left_outer (order_customer st od)) else [Unloaded])"

definition employee_cols ::
  "store \<Rightarrow> load_option list \<Rightarrow> order_row \<Rightarrow>
   (person_row \<times> employee_row \<times> food_truck_row option) option attr list" where
  "employee_cols st opts od =
     (if Joinedload_employee_food_truck \<in> set opts
      then map Loaded
        (case order_employee st od of
           [] \<Rightarrow> [None]
         | es \<Rightarrow> [Some (p, e, f). (p, e) \<leftarrow> es, f \<leftarrow> left_outer (employee_food_truck st e)])
      else [Unloaded])"

text \<open>
  The rows of the statement that the query compiles to: the inner joins, and for every
  \<open>joinedload\<close> option a LEFT OUTER JOIN against an alias of its own.
\<close>

definition query_rows :: "store \<Rightarrow> query \<Rightarrow> result_row list" where
  "query_rows st q =
     [\<lparr>rr_order = od, rr_menu_item = i, rr_customer = c, rr_employee = e\<rparr>.
        (od, m, f) \<leftarrow> inner_rows st (q_price q),
        i \<leftarrow> menu_item_cols st (q_options q) od,
        c \<leftarrow> customer_cols st (q_options q) od,
        e \<leftarrow> employee_cols st (q_options q) od]"

record employee_obj =
  eo_person :: person_row
  eo_row :: employee_row
  eo_food_truck :: "food_truck_row option attr"

record order_obj =
  oo_row :: order_row
  oo_menu_items :: "menu_item_row list attr"
  oo_customer :: "person_row option attr"
  oo_employee :: "employee_obj option attr"

definition oo_id :: "order_obj \<Rightarrow> nat" where
  "oo_id obj = o_id (oo_row obj)"

definition employee_of_cols ::
  "(person_row \<times> employee_row \<times> food_truck_row option) option \<Rightarrow> employee_obj option" where
  "employee_of_cols x =
     (case x of
        None \<Rightarrow> None
      | Some (p, e, f) \<Rightarrow> Some \<lparr>eo_person = p, eo_row = e, eo_food_truck = Loaded f\<rparr>)"

text \<open>
  The first row of an \<open>Order\<close> creates the object and populates its scalar attributes;
  every row of that \<open>Order\<close> offers a menu item to its collection, which takes an
  object once (identity is the primary key).
\<close>

definition new_obj :: "result_row \<Rightarrow> order_obj" where
  "new_obj r =
     \<lparr>oo_row = rr_order r,
      oo_menu_items =
        (case rr_menu_item r of
           Unloaded \<Rightarrow> Unloaded
         | Loaded None \<Rightarrow> Loaded []
         | Loaded (Some m) \<Rightarrow> Loaded [m]),
      oo_customer = rr_customer r,
      oo_employee =
        (case rr_employee r of Unloaded \<Rightarrow> Unloaded | Loaded x \<Rightarrow> Loaded (employee_of_cols x))\<rparr>"

definition append_unique :: "result_row \<Rightarrow> order_obj \<Rightarrow> order_obj" where
  "append_unique r obj =
     (case (oo_menu_items obj, rr_menu_item r) of
        (Loaded ms, Loaded (Some m)) \<Rightarrow>
          if mi_id m \<in> set (map mi_id ms) then obj
          else obj\<lparr>oo_menu_items := Loaded (ms @ [m])\<rparr>
      | _ \<Rightarrow> obj)"

definition load_row :: "result_row \<Rightarrow> order_obj list \<Rightarrow> order_obj list" where
  "load_row r objs =
     (if o_id (rr_order r) \<in> set (map oo_id objs)
      then map (\<lambda>obj. if oo_id obj = o_id (rr_order r) then append_unique r obj else obj) objs
      else objs @ [new_obj r])"

definition instances :: "result_row list \<Rightarrow> order_obj list" where
  "instances rows = fold load_row rows []"

text \<open>\<open>query.all()\<close>, line 184.\<close>

definition query_all :: "store \<Rightarrow> query \<Rightarrow> order_obj list" where
  "query_all st q = instances (query_rows st q)"

text \<open>The query of lines 170 to 180, with the literal of the filter as a parameter.\<close>

definition composed_query :: "int \<Rightarrow> query" where
  "composed_query price =
     \<lparr>q_options = [Joinedload_menu_items, Joinedload_customer, Joinedload_employee_food_truck],
      q_price = price\<rparr>"

subsection \<open>Rendering: the loop of lines 188 to 196\<close>

text \<open>
  Reading an attribute that the query has not populated emits the SELECT of the
  relationship (a lazy load); a many-to-one relationship with no partner reads as
  \<open>None\<close>.
\<close>

definition unique_items :: "menu_item_row list \<Rightarrow> menu_item_row list" where
  "unique_items ms =
     fold (\<lambda>m acc. if mi_id m \<in> set (map mi_id acc) then acc else acc @ [m]) ms []"

definition get_menu_items :: "store \<Rightarrow> order_obj \<Rightarrow> menu_item_row list" where
  "get_menu_items st obj =
     (case oo_menu_items obj of
        Loaded ms \<Rightarrow> ms
      | Unloaded \<Rightarrow> unique_items (order_menu_items st (oo_id obj)))"

definition get_customer :: "store \<Rightarrow> order_obj \<Rightarrow> person_row option" where
  "get_customer st obj =
     (case oo_customer obj of
        Loaded c \<Rightarrow> c
      | Unloaded \<Rightarrow> (case order_customer st (oo_row obj) of [] \<Rightarrow> None | p # _ \<Rightarrow> Some p))"

definition get_employee :: "store \<Rightarrow> order_obj \<Rightarrow> employee_obj option" where
  "get_employee st obj =
     (case oo_employee obj of
        Loaded e \<Rightarrow> e
      | Unloaded \<Rightarrow>
          (case order_employee st (oo_row obj) of
             [] \<Rightarrow> None
           | (p, e) # _ \<Rightarrow> Some \<lparr>eo_person = p, eo_row = e, eo_food_truck = Unloaded\<rparr>))"

definition get_food_truck :: "store \<Rightarrow> employee_obj \<Rightarrow> food_truck_row option" where
  "get_food_truck st e =
     (case eo_food_truck e of
        Loaded f \<Rightarrow> f
      | Unloaded \<Rightarrow> (case employee_food_truck st (eo_row e) of [] \<Rightarrow> None | f # _ \<Rightarrow> Some f))"

text \<open>
  One printed line: the five arguments of \<open>print\<close>, evaluated from left to right. An
  attribute read on \<open>None\<close> raises \<open>AttributeError\<close>, which nothing catches.
\<close>

type_synonym line = "string \<times> string option \<times> int option \<times> string \<times> string"

definition print_args :: "store \<Rightarrow> order_obj \<Rightarrow> menu_item_row \<Rightarrow> error + line" where
  "print_args st obj m =
     (case get_customer st obj of
        None \<Rightarrow> Inl AttributeError
      | Some c \<Rightarrow>
          (case get_employee st obj of
             None \<Rightarrow> Inl AttributeError
           | Some e \<Rightarrow>
               (case get_food_truck st e of
                  None \<Rightarrow> Inl AttributeError
                | Some f \<Rightarrow> Inr (name c, mi_name m, mi_price m, ft_name f, ft_type f))))"

text \<open>
  The loops thread the lines printed so far; a fault ends the run and leaves what was
  printed before it.
\<close>

fun render_items ::
  "store \<Rightarrow> order_obj \<Rightarrow> menu_item_row list \<Rightarrow> line list \<Rightarrow> line list \<times> error option" where
  "render_items st obj [] out = (out, None)"
| "render_items st obj (m # ms) out =
     (case print_args st obj m of
        Inl e \<Rightarrow> (out, Some e)
      | Inr l \<Rightarrow> render_items st obj ms (out @ [l]))"

fun render :: "store \<Rightarrow> order_obj list \<Rightarrow> line list \<Rightarrow> line list \<times> error option" where
  "render st [] out = (out, None)"
| "render st (obj # objs) out =
     (case render_items st obj (get_menu_items st obj) out of
        (out', Some e) \<Rightarrow> (out', Some e)
      | (out', None) \<Rightarrow> render st objs out')"

subsection \<open>main\<close>

text \<open>
  \<open>taco_truck.menu_items\<close> and \<open>taco_truck.employees\<close>, read after the commit that
  expired them: the rows that carry the key of the truck. An index out of range raises
  \<open>IndexError\<close>.
\<close>

definition truck_menu_items :: "store \<Rightarrow> nat \<Rightarrow> menu_item_row list" where
  "truck_menu_items st fid = filter (\<lambda>m. mi_food_truck_id m = Some fid) (menu_items st)"

definition truck_employees :: "store \<Rightarrow> nat \<Rightarrow> employee_row list" where
  "truck_employees st fid = filter (\<lambda>e. e_food_truck_id e = Some fid) (employees st)"

definition fixture_truck :: new_food_truck where
  "fixture_truck =
     \<lparr>nft_class = TacoTruck, nft_name = Some ''Hell's Chariot'',
      nft_menu_items =
        [\<lparr>nmi_name = Some ''Super Burrito'', nmi_price = Some 1000\<rparr>,
         \<lparr>nmi_name = Some ''California Burrito'', nmi_price = Some 700\<rparr>,
         \<lparr>nmi_name = Some ''Shrimp Burrito'', nmi_price = Some 800\<rparr>],
      nft_employees =
        [\<lparr>np_first_name = Some ''Danny'', np_last_name = Some ''Zuko''\<rparr>,
         \<lparr>np_first_name = Some ''Sandra'', np_last_name = Some ''Dee''\<rparr>]\<rparr>"

definition fixture_customer :: new_person where
  "fixture_customer = \<lparr>np_first_name = Some ''Frenchy'', np_last_name = None\<rparr>"

definition index :: "'a list \<Rightarrow> nat \<Rightarrow> error + 'a" where
  "index xs i = (if i < length xs then Inr (xs ! i) else Inl IndexError)"

definition bind_err :: "error + 'a \<Rightarrow> ('a \<Rightarrow> error + 'b) \<Rightarrow> error + 'b" where
  "bind_err x f = (case x of Inl e \<Rightarrow> Inl e | Inr v \<Rightarrow> f v)"

text \<open>Lines 126 to 163: the three commits that populate the store.\<close>

definition fixture :: "error + store" where
  "fixture =
     (case commit_food_truck fixture_truck create_all of
        (Inl e, st1) \<Rightarrow> Inl e
      | (Inr fid, st1) \<Rightarrow>
          (case insert_customer fixture_customer st1 of
             (cid, st2) \<Rightarrow>
               bind_err (index (truck_menu_items st2 fid) 0) (\<lambda>m0.
               bind_err (index (truck_menu_items st2 fid) 1) (\<lambda>m1.
               bind_err (index (truck_employees st2 fid) 0) (\<lambda>e0.
               bind_err (index (truck_menu_items st2 fid) 1) (\<lambda>m1'.
               bind_err (index (truck_employees st2 fid) 1) (\<lambda>e1.
                 Inr (commit_orders
                   [\<lparr>no_menu_items = [mi_id m0, mi_id m1], no_customer = Some cid,
                     no_employee = Some (e_id e0)\<rparr>,
                    \<lparr>no_menu_items = [mi_id m1'], no_customer = Some cid,
                     no_employee = Some (e_id e1)\<rparr>] st2))))))))"

text \<open>
  \<open>main\<close>: the fixture, the query with the literal 700, and the rendering loop. The
  two presentational prints (the formatted statement of line 182 and the banner of
  line 186) are left out of the output.
\<close>

definition main :: "line list \<times> error option" where
  "main =
     (case fixture of
        Inl e \<Rightarrow> ([], Some e)
      | Inr st \<Rightarrow> render st (query_all st (composed_query 700)) [])"

text \<open>The businesses that a menu item references through \<open>food_truck_id\<close>.\<close>

definition item_businesses :: "store \<Rightarrow> menu_item_row \<Rightarrow> food_truck_row list" where
  "item_businesses st m = filter (\<lambda>f. mi_food_truck_id m = Some (ft_id f)) (food_trucks st)"

text \<open>The primary key of \<open>food_truck\<close>: no two trucks share a key.\<close>

definition truck_keys_ok :: "store \<Rightarrow> bool" where
  "truck_keys_ok st = distinct (map ft_id (food_trucks st))"

subsection \<open>Notions that the properties below speak of\<close>

text \<open>
  The orders that the specification says the query selects: those with at least one
  menu item of the given price.
\<close>

definition spec_selected :: "store \<Rightarrow> int \<Rightarrow> order_row list" where
  "spec_selected st price =
     filter (\<lambda>od. \<exists>m \<in> set (order_menu_items st (o_id od)). mi_price m = Some price)
       (orders st)"

text \<open>
  The orders that the joins of the query select: the menu item of the given price must
  also reach a truck through \<open>MenuItem.food_truck\<close>.
\<close>

definition selected :: "store \<Rightarrow> int \<Rightarrow> order_row list" where
  "selected st price =
     filter (\<lambda>od. \<exists>m \<in> set (order_menu_items st (o_id od)).
                mi_price m = Some price \<and> item_businesses st m \<noteq> [])
       (orders st)"

text \<open>No menu item is shared: it references one business at most.\<close>

definition unshared :: "store \<Rightarrow> bool" where
  "unshared st = (\<forall>m \<in> set (menu_items st). length (item_businesses st m) \<le> 1)"

text \<open>
  Every menu item belongs to exactly one business, the keys of the businesses being
  distinct.
\<close>

definition items_owned :: "store \<Rightarrow> bool" where
  "items_owned st =
     (truck_keys_ok st \<and> (\<forall>m \<in> set (menu_items st). length (item_businesses st m) = 1))"

text \<open>Whether the query has populated the three relationships of an order.\<close>

fun is_loaded :: "'a attr \<Rightarrow> bool" where
  "is_loaded Unloaded = False"
| "is_loaded (Loaded x) = True"

definition materialized :: "order_obj \<Rightarrow> bool" where
  "materialized obj =
     (is_loaded (oo_menu_items obj) \<and> is_loaded (oo_customer obj) \<and> is_loaded (oo_employee obj))"

definition unmaterialized :: "order_obj \<Rightarrow> bool" where
  "unmaterialized obj =
     (\<not> is_loaded (oo_menu_items obj) \<and> \<not> is_loaded (oo_customer obj) \<and>
      \<not> is_loaded (oo_employee obj))"

text \<open>
  What a result row amounts to when order is set aside: the order and the set of its
  loaded menu items.
\<close>

definition row_view :: "order_obj \<Rightarrow> order_row \<times> menu_item_row set" where
  "row_view obj =
     (oo_row obj, case oo_menu_items obj of Loaded ms \<Rightarrow> set ms | Unloaded \<Rightarrow> {})"

text \<open>
  Two states of the store with the same rows in every table that the query reads: the
  engine is free to enumerate them in another order.
\<close>

definition same_tables :: "store \<Rightarrow> store \<Rightarrow> bool" where
  "same_tables st st' =
     (set (orders st) = set (orders st') \<and> set (menu_items st) = set (menu_items st') \<and>
      set (menu_item_orders st) = set (menu_item_orders st') \<and>
      set (food_trucks st) = set (food_trucks st') \<and> set (persons st) = set (persons st') \<and>
      set (employees st) = set (employees st') \<and> set (customers st) = set (customers st'))"

text \<open>The menu items that the rows of one order offer to its collection.\<close>

definition offered :: "result_row list \<Rightarrow> menu_item_row set" where
  "offered rs = {m. \<exists>x \<in> set rs. rr_menu_item x = Loaded (Some m)}"

subsection \<open>Stores to evaluate on\<close>

definition fixture_store :: store where
  "fixture_store = (case fixture of Inl e \<Rightarrow> create_all | Inr st \<Rightarrow> st)"

text \<open>The fixture with its tables enumerated backwards.\<close>

definition reversed_store :: store where
  "reversed_store =
     fixture_store\<lparr>orders := rev (orders fixture_store),
                   menu_items := rev (menu_items fixture_store),
                   menu_item_orders := rev (menu_item_orders fixture_store)\<rparr>"

text \<open>The fixture and a third order for the California Burrito that nobody served.\<close>

definition unserved_store :: store where
  "unserved_store =
     insert_order \<lparr>no_menu_items = [2], no_customer = Some 3, no_employee = None\<rparr>
       fixture_store"

text \<open>A menu item on no truck's menu, and an order for it.\<close>

definition orphan_item :: new_menu_item where
  "orphan_item = \<lparr>nmi_name = Some ''Street Taco'', nmi_price = Some 700\<rparr>"

definition orphan_store :: store where
  "orphan_store =
     insert_order \<lparr>no_menu_items = [1], no_customer = None, no_employee = None\<rparr>
       (insert_menu_item None orphan_item create_all)"

text \<open>A second truck with a menu and a cook, and a further order on the fixture.\<close>

definition second_truck :: new_food_truck where
  "second_truck =
     \<lparr>nft_class = FoodTruck, nft_name = Some ''Greased Lightning'',
      nft_menu_items = [\<lparr>nmi_name = Some ''Street Taco'', nmi_price = Some 700\<rparr>],
      nft_employees = [\<lparr>np_first_name = Some ''Kenickie'', np_last_name = None\<rparr>]\<rparr>"

definition second_order :: new_order where
  "second_order = \<lparr>no_menu_items = [3], no_customer = Some 3, no_employee = Some 1\<rparr>"

section \<open>The query, row by row\<close>

subsection \<open>The joins as sets of rows\<close>

lemma set_order_menu_items:
  "set (order_menu_items st k) =
     {m \<in> set (menu_items st). \<exists>j \<in> set (menu_item_orders st).
        mio_order_id j = Some k \<and> mio_menu_item_id j = Some (mi_id m)}"
  by (auto simp: order_menu_items_def)

lemma in_inner_rows:
  "(od, m, f) \<in> set (inner_rows st p) \<longleftrightarrow>
     od \<in> set (orders st) \<and> m \<in> set (order_menu_items st (o_id od)) \<and>
     f \<in> set (food_trucks st) \<and> mi_food_truck_id m = Some (ft_id f) \<and> mi_price m = Some p"
  by (auto simp: inner_rows_def)

lemma left_outer_nonempty: "left_outer xs \<noteq> []"
  by (simp add: left_outer_def)

lemma menu_item_cols_nonempty: "menu_item_cols st opts od \<noteq> []"
  by (simp add: menu_item_cols_def left_outer_nonempty)

lemma customer_cols_nonempty: "customer_cols st opts od \<noteq> []"
  by (simp add: customer_cols_def left_outer_nonempty)

lemma employee_cols_nonempty: "employee_cols st opts od \<noteq> []"
  by (auto simp: employee_cols_def left_outer_nonempty split: list.splits)

lemma in_query_rows:
  "r \<in> set (query_rows st q) \<longleftrightarrow>
     (\<exists>m f. (rr_order r, m, f) \<in> set (inner_rows st (q_price q))) \<and>
     rr_menu_item r \<in> set (menu_item_cols st (q_options q) (rr_order r)) \<and>
     rr_customer r \<in> set (customer_cols st (q_options q) (rr_order r)) \<and>
     rr_employee r \<in> set (employee_cols st (q_options q) (rr_order r))"
proof (cases r)
  case (fields od i c e)
  show ?thesis
  proof
    assume "r \<in> set (query_rows st q)"
    then show "(\<exists>m f. (rr_order r, m, f) \<in> set (inner_rows st (q_price q))) \<and>
     rr_menu_item r \<in> set (menu_item_cols st (q_options q) (rr_order r)) \<and>
     rr_customer r \<in> set (customer_cols st (q_options q) (rr_order r)) \<and>
     rr_employee r \<in> set (employee_cols st (q_options q) (rr_order r))"
      unfolding fields by (auto simp: query_rows_def)
  next
    assume "(\<exists>m f. (rr_order r, m, f) \<in> set (inner_rows st (q_price q))) \<and>
     rr_menu_item r \<in> set (menu_item_cols st (q_options q) (rr_order r)) \<and>
     rr_customer r \<in> set (customer_cols st (q_options q) (rr_order r)) \<and>
     rr_employee r \<in> set (employee_cols st (q_options q) (rr_order r))"
    then obtain m f where "(od, m, f) \<in> set (inner_rows st (q_price q))"
      and "i \<in> set (menu_item_cols st (q_options q) od)"
      and "c \<in> set (customer_cols st (q_options q) od)"
      and "e \<in> set (employee_cols st (q_options q) od)"
      unfolding fields by auto
    then show "r \<in> set (query_rows st q)"
      unfolding fields query_rows_def by (simp, intro bexI [where x = "(od, m, f)"]) auto
  qed
qed

lemma keys_query_rows:
  "(\<lambda>r. o_id (rr_order r)) ` set (query_rows st q) =
     (\<lambda>(od, m, f). o_id od) ` set (inner_rows st (q_price q))"
proof (intro equalityI subsetI)
  fix k assume "k \<in> (\<lambda>r. o_id (rr_order r)) ` set (query_rows st q)"
  then show "k \<in> (\<lambda>(od, m, f). o_id od) ` set (inner_rows st (q_price q))"
    by (force simp: in_query_rows)
next
  fix k assume "k \<in> (\<lambda>(od, m, f). o_id od) ` set (inner_rows st (q_price q))"
  then obtain od m f where in_rows: "(od, m, f) \<in> set (inner_rows st (q_price q))"
    and k: "k = o_id od" by auto
  obtain i where i: "i \<in> set (menu_item_cols st (q_options q) od)"
    using menu_item_cols_nonempty [of st "q_options q" od] by (meson last_in_set)
  obtain c where c: "c \<in> set (customer_cols st (q_options q) od)"
    using customer_cols_nonempty [of st "q_options q" od] by (meson last_in_set)
  obtain e where e: "e \<in> set (employee_cols st (q_options q) od)"
    using employee_cols_nonempty [of st "q_options q" od] by (meson last_in_set)
  let ?r = "\<lparr>rr_order = od, rr_menu_item = i, rr_customer = c, rr_employee = e\<rparr>"
  have "?r \<in> set (query_rows st q)"
    using in_rows i c e by (auto simp: in_query_rows)
  then show "k \<in> (\<lambda>r. o_id (rr_order r)) ` set (query_rows st q)"
    using k by force
qed


lemma oo_id_append_unique: "oo_id (append_unique r obj) = oo_id obj"
  by (auto simp: append_unique_def oo_id_def split: attr.splits option.splits)

lemma oo_id_new_obj: "oo_id (new_obj r) = o_id (rr_order r)"
  by (simp add: new_obj_def oo_id_def)

lemma map_oo_id_load_row:
  "map oo_id (load_row r objs) =
     (if o_id (rr_order r) \<in> set (map oo_id objs) then map oo_id objs
      else map oo_id objs @ [o_id (rr_order r)])"
  by (auto simp: load_row_def oo_id_append_unique oo_id_new_obj)

lemma instances_snoc: "instances (rows @ [r]) = load_row r (instances rows)"
  by (simp add: instances_def)

lemma instances_Nil: "instances [] = []"
  by (simp add: instances_def)

lemma ids_instances: "set (map oo_id (instances rows)) = (\<lambda>r. o_id (rr_order r)) ` set rows"
proof (induction rows rule: rev_induct)
  case Nil
  show ?case by (simp add: instances_Nil)
next
  case (snoc r rows)
  have "set (map oo_id (load_row r (instances rows))) =
          insert (o_id (rr_order r)) (set (map oo_id (instances rows)))"
    unfolding map_oo_id_load_row by auto
  with snoc show ?case by (simp add: instances_snoc)
qed

lemma distinct_instances: "distinct (map oo_id (instances rows))"
proof (induction rows rule: rev_induct)
  case Nil
  show ?case by (simp add: instances_Nil)
next
  case (snoc r rows)
  then show ?case unfolding instances_snoc map_oo_id_load_row by simp
qed

lemma fold_append_unique_snoc:
  "fold append_unique (rs @ [r]) obj = append_unique r (fold append_unique rs obj)"
  by simp

lemma oo_id_fold_append_unique: "oo_id (fold append_unique rs obj) = oo_id obj"
  by (induction rs arbitrary: obj) (simp_all add: oo_id_append_unique)

lemma instances_group:
  "obj \<in> set (instances rows) \<Longrightarrow>
     \<exists>r rest. filter (\<lambda>x. o_id (rr_order x) = oo_id obj) rows = r # rest \<and>
              obj = fold append_unique rest (new_obj r)"
proof (induction rows arbitrary: obj rule: rev_induct)
  case Nil
  then show ?case by (simp add: instances_Nil)
next
  case (snoc x rows)
  let ?k = "o_id (rr_order x)"
  show ?case
  proof (cases "?k \<in> set (map oo_id (instances rows))")
    case True
    with snoc.prems obtain old where old: "old \<in> set (instances rows)"
      and obj: "obj = (if oo_id old = ?k then append_unique x old else old)"
      by (auto simp: instances_snoc load_row_def)
    from snoc.IH [OF old] obtain r rest where
      grp: "filter (\<lambda>y. o_id (rr_order y) = oo_id old) rows = r # rest"
      and bld: "old = fold append_unique rest (new_obj r)" by blast
    show ?thesis
    proof (cases "oo_id old = ?k")
      case True
      then have "obj = fold append_unique (rest @ [x]) (new_obj r)"
        using obj bld by simp
      moreover have "oo_id obj = ?k"
        using obj True by (simp add: oo_id_append_unique)
      ultimately show ?thesis using grp True by auto
    next
      case False
      then show ?thesis using obj grp bld by auto
    qed
  next
    case False
    with snoc.prems have "obj \<in> set (instances rows) \<or> obj = new_obj x"
      by (auto simp: instances_snoc load_row_def)
    then show ?thesis
    proof
      assume old: "obj \<in> set (instances rows)"
      then have "oo_id obj \<noteq> ?k" using False by force
      with snoc.IH [OF old] show ?thesis by auto
    next
      assume new: "obj = new_obj x"
      have "\<forall>y \<in> set rows. o_id (rr_order y) \<noteq> ?k"
        using False unfolding ids_instances by (metis (no_types, lifting) imageI)
      then have "filter (\<lambda>y. o_id (rr_order y) = ?k) rows = []"
        by (simp add: filter_empty_conv)
      then show ?thesis using new by (simp add: oo_id_new_obj)
    qed
  qed
qed

lemma fold_append_unique_scalars:
  "oo_row (fold append_unique rs obj) = oo_row obj \<and>
   oo_customer (fold append_unique rs obj) = oo_customer obj \<and>
   oo_employee (fold append_unique rs obj) = oo_employee obj"
proof (induction rs arbitrary: obj)
  case Nil
  show ?case by simp
next
  case (Cons r rs)
  have "oo_row (append_unique r obj) = oo_row obj \<and>
        oo_customer (append_unique r obj) = oo_customer obj \<and>
        oo_employee (append_unique r obj) = oo_employee obj"
    by (auto simp: append_unique_def split: attr.splits option.splits)
  with Cons [of "append_unique r obj"] show ?case by simp
qed

lemma append_unique_items:
  "oo_menu_items obj = Loaded ms \<Longrightarrow>
     oo_menu_items (append_unique r obj) =
       Loaded (case rr_menu_item r of
                 Loaded (Some m) \<Rightarrow> if mi_id m \<in> set (map mi_id ms) then ms else ms @ [m]
               | _ \<Rightarrow> ms)"
  by (auto simp: append_unique_def split: attr.splits option.splits)

lemma offered_snoc:
  "offered (rs @ [r]) =
     offered rs \<union> (case rr_menu_item r of Loaded (Some m) \<Rightarrow> {m} | _ \<Rightarrow> {})"
  by (auto simp: offered_def split: attr.splits option.splits)

lemma fold_append_unique_items:
  "oo_menu_items obj = Loaded ms \<Longrightarrow>
     \<exists>ms'. oo_menu_items (fold append_unique rs obj) = Loaded ms' \<and>
           set ms \<subseteq> set ms' \<and> set ms' \<subseteq> set ms \<union> offered rs \<and>
           mi_id ` set ms' = mi_id ` (set ms \<union> offered rs)"
proof (induction rs rule: rev_induct)
  case Nil
  then show ?case by (simp add: offered_def)
next
  case (snoc r rs)
  from snoc.IH [OF snoc.prems] obtain ms1 where
    ld: "oo_menu_items (fold append_unique rs obj) = Loaded ms1"
    and sub1: "set ms \<subseteq> set ms1" and sub2: "set ms1 \<subseteq> set ms \<union> offered rs"
    and img: "mi_id ` set ms1 = mi_id ` (set ms \<union> offered rs)" by blast
  let ?ms2 = "case rr_menu_item r of
                Loaded (Some m) \<Rightarrow> if mi_id m \<in> set (map mi_id ms1) then ms1 else ms1 @ [m]
              | _ \<Rightarrow> ms1"
  have step: "oo_menu_items (fold append_unique (rs @ [r]) obj) = Loaded ?ms2"
    unfolding fold_append_unique_snoc by (rule append_unique_items [OF ld])
  have "set ms \<subseteq> set ?ms2"
    using sub1 by (auto split: attr.splits option.splits)
  moreover have "set ?ms2 \<subseteq> set ms \<union> offered (rs @ [r])"
    using sub2 unfolding offered_snoc by (auto split: attr.splits option.splits if_splits)
  moreover have "mi_id ` set ?ms2 = mi_id ` (set ms \<union> offered (rs @ [r]))"
    using img unfolding offered_snoc by (auto split: attr.splits option.splits if_splits)
  ultimately show ?case using step by blast
qed

lemma query_all_group:
  "obj \<in> set (query_all st q) \<Longrightarrow>
     \<exists>r rest. filter (\<lambda>x. o_id (rr_order x) = oo_id obj) (query_rows st q) = r # rest \<and>
              obj = fold append_unique rest (new_obj r)"
  unfolding query_all_def by (rule instances_group)

lemma row_item_loaded:
  assumes "Joinedload_menu_items \<in> set (q_options q)" and "r \<in> set (query_rows st q)"
  shows "\<exists>m. rr_menu_item r = Loaded (Some m) \<and>
             m \<in> set (order_menu_items st (o_id (rr_order r)))"
proof -
  from assms(2) obtain m f where "(rr_order r, m, f) \<in> set (inner_rows st (q_price q))"
    and col: "rr_menu_item r \<in> set (menu_item_cols st (q_options q) (rr_order r))"
    by (auto simp: in_query_rows)
  then have "order_menu_items st (o_id (rr_order r)) \<noteq> []"
    by (auto simp: in_inner_rows)
  with col assms(1) show ?thesis
    by (auto simp: menu_item_cols_def left_outer_def)
qed

lemma offered_group:
  assumes opt: "Joinedload_menu_items \<in> set (q_options q)"
    and r0: "r0 \<in> set (query_rows st q)"
  shows "offered (filter (\<lambda>x. o_id (rr_order x) = o_id (rr_order r0)) (query_rows st q)) =
           set (order_menu_items st (o_id (rr_order r0)))"
proof (intro equalityI subsetI)
  fix m
  assume "m \<in> offered (filter (\<lambda>x. o_id (rr_order x) = o_id (rr_order r0)) (query_rows st q))"
  then obtain x where "x \<in> set (query_rows st q)"
    and "o_id (rr_order x) = o_id (rr_order r0)" and "rr_menu_item x = Loaded (Some m)"
    by (auto simp: offered_def)
  with row_item_loaded [OF opt, of x st]
  show "m \<in> set (order_menu_items st (o_id (rr_order r0)))" by auto
next
  fix m
  assume m: "m \<in> set (order_menu_items st (o_id (rr_order r0)))"
  let ?x = "r0\<lparr>rr_menu_item := Loaded (Some m)\<rparr>"
  have "Loaded (Some m) \<in> set (menu_item_cols st (q_options q) (rr_order r0))"
    using m opt by (auto simp: menu_item_cols_def left_outer_def)
  with r0 have "?x \<in> set (query_rows st q)"
    by (simp add: in_query_rows)
  then show "m \<in> offered (filter (\<lambda>x. o_id (rr_order x) = o_id (rr_order r0)) (query_rows st q))"
    unfolding offered_def by (auto intro!: bexI [where x = ?x])
qed

lemma offered_Cons:
  "offered (r # rs) =
     (case rr_menu_item r of Loaded (Some m) \<Rightarrow> {m} | _ \<Rightarrow> {}) \<union> offered rs"
  by (auto simp: offered_def split: attr.splits option.splits)

lemma query_all_row:
  assumes "obj \<in> set (query_all st q)"
  shows "\<exists>m f. (oo_row obj, m, f) \<in> set (inner_rows st (q_price q))"
proof -
  from query_all_group [OF assms] obtain r rest where
    grp: "filter (\<lambda>x. o_id (rr_order x) = oo_id obj) (query_rows st q) = r # rest"
    and obj: "obj = fold append_unique rest (new_obj r)" by blast
  have "r \<in> set (filter (\<lambda>x. o_id (rr_order x) = oo_id obj) (query_rows st q))"
    unfolding grp by simp
  then have "r \<in> set (query_rows st q)" by simp
  moreover have "oo_row obj = rr_order r"
    unfolding obj by (simp add: fold_append_unique_scalars new_obj_def)
  ultimately show ?thesis by (auto simp: in_query_rows)
qed

lemma query_all_items:
  assumes opt: "Joinedload_menu_items \<in> set (q_options q)"
    and obj: "obj \<in> set (query_all st q)"
  shows "\<exists>ms. oo_menu_items obj = Loaded ms \<and> ms \<noteq> [] \<and>
           set ms \<subseteq> set (order_menu_items st (oo_id obj)) \<and>
           mi_id ` set ms = mi_id ` set (order_menu_items st (oo_id obj))"
proof -
  from query_all_group [OF obj] obtain r rest where
    grp: "filter (\<lambda>x. o_id (rr_order x) = oo_id obj) (query_rows st q) = r # rest"
    and bld: "obj = fold append_unique rest (new_obj r)" by blast
  have "r \<in> set (filter (\<lambda>x. o_id (rr_order x) = oo_id obj) (query_rows st q))"
    unfolding grp by simp
  then have r: "r \<in> set (query_rows st q)" and key: "o_id (rr_order r) = oo_id obj"
    by simp_all
  from row_item_loaded [OF opt r] obtain m0 where m0: "rr_menu_item r = Loaded (Some m0)"
    by blast
  have new: "oo_menu_items (new_obj r) = Loaded [m0]"
    by (simp add: new_obj_def m0)
  have off: "set [m0] \<union> offered rest = set (order_menu_items st (oo_id obj))"
    using offered_group [OF opt r] unfolding key grp offered_Cons m0 by simp
  from fold_append_unique_items [OF new, of rest] obtain ms where
    "oo_menu_items (fold append_unique rest (new_obj r)) = Loaded ms"
    and "set [m0] \<subseteq> set ms" and "set ms \<subseteq> set [m0] \<union> offered rest"
    and "mi_id ` set ms = mi_id ` (set [m0] \<union> offered rest)" by blast
  then show ?thesis unfolding off bld [symmetric] by auto
qed

lemma query_all_items_inj:
  assumes opt: "Joinedload_menu_items \<in> set (q_options q)"
    and obj: "obj \<in> set (query_all st q)"
    and inj: "inj_on mi_id (set (menu_items st))"
  shows "\<exists>ms. oo_menu_items obj = Loaded ms \<and>
           set ms = set (order_menu_items st (oo_id obj))"
proof -
  from query_all_items [OF opt obj] obtain ms where
    ld: "oo_menu_items obj = Loaded ms"
    and sub: "set ms \<subseteq> set (order_menu_items st (oo_id obj))"
    and img: "mi_id ` set ms = mi_id ` set (order_menu_items st (oo_id obj))" by blast
  have "set (order_menu_items st (oo_id obj)) \<subseteq> set ms"
  proof
    fix m assume m: "m \<in> set (order_menu_items st (oo_id obj))"
    then have "mi_id m \<in> mi_id ` set ms" using img by blast
    then obtain m' where m': "m' \<in> set ms" and eq: "mi_id m = mi_id m'" by blast
    from m' sub have "m' \<in> set (order_menu_items st (oo_id obj))" by blast
    then have "m' \<in> set (menu_items st)" and "m \<in> set (menu_items st)"
      using m by (auto simp: set_order_menu_items)
    with inj eq have "m = m'" by (meson inj_onD)
    with m' show "m \<in> set ms" by simp
  qed
  with sub ld show ?thesis by blast
qed

lemma ids_query_all:
  "set (map oo_id (query_all st q)) =
     (\<lambda>(od, m, f). o_id od) ` set (inner_rows st (q_price q))"
  unfolding query_all_def ids_instances keys_query_rows ..

lemma distinct_query_all: "distinct (map oo_id (query_all st q))"
  unfolding query_all_def by (rule distinct_instances)

section \<open>Properties\<close>

subsection \<open>The derived display name\<close>

text \<open>
  C3, as stated: the display name is "last, first" with "NA" for each part that is
  missing. It fails for a part that is present and empty: the code prints "NA" for it,
  where "last, first" has the empty part.
\<close>

theorem name_empty_part_counterexample:
  "name \<lparr>p_id = 1, p_type = ''person'', first_name = Some '''', last_name = Some ''Dee''\<rparr>
     = ''Dee, NA'' \<and>
   spec_display_name
     \<lparr>p_id = 1, p_type = ''person'', first_name = Some '''', last_name = Some ''Dee''\<rparr>
     = ''Dee, ''"
  by (simp add: name_def or_NA_def spec_display_name_def)

text \<open>
  C3, amended: the display name is "last, first" with "NA" for each part that is missing
  or empty; so it is "NA, NA" with no part, "Dee, NA" with the last name "Dee" only and
  "Dee, Sandra" with both parts.
\<close>

theorem name_last_first_or_NA:
  "name p = spec_display_name
              (p\<lparr>first_name := blank_to_missing (first_name p),
                 last_name := blank_to_missing (last_name p)\<rparr>) \<and>
   name (p\<lparr>first_name := None, last_name := None\<rparr>) = ''NA, NA'' \<and>
   name (p\<lparr>first_name := None, last_name := Some ''Dee''\<rparr>) = ''Dee, NA'' \<and>
   name (p\<lparr>first_name := Some ''Sandra'', last_name := Some ''Dee''\<rparr>) = ''Dee, Sandra''"
  by (simp add: name_def or_NA_def spec_display_name_def blank_to_missing_def
      split: option.splits)

subsection \<open>The scenario of \<open>main\<close>\<close>

text \<open>
  C1, as stated: the renderer prints exactly two lines, each ("Frenchy",
  "California Burrito", 700, "Hell's Chariot", tag). It prints another number of
  lines, and none of them is that line, whichever the tag.
\<close>

theorem main_two_lines_counterexample:
  "length (fst main) \<noteq> 2 \<and>
   (''Frenchy'', Some ''California Burrito'', Some 700, ''Hell's Chariot'', ''taco_truck'')
     \<notin> set (fst main) \<and>
   (''Frenchy'', Some ''California Burrito'', Some 700, ''Hell's Chariot'', ''food_truck'')
     \<notin> set (fst main)"
  by code_simp

text \<open>
  C1, amended: on the fixture the query with price 700 returns both orders, and the
  renderer prints one line for each menu item of each of them, three lines: the
  Super Burrito (1000) once and the California Burrito (700) twice, each with the
  patron's display name "NA, Frenchy", the truck "Hell's Chariot" and the tag
  "taco_truck"; no fault is raised. The statement has no ORDER BY, so the orders and
  the lines are taken as a set and a multiset: the same holds when the tables are
  enumerated backwards.
\<close>

theorem main_prints_three_lines:
  "fixture = Inr fixture_store \<and>
   set (map oo_id (query_all fixture_store (composed_query 700))) = {1, 2} \<and>
   mset (fst main) =
     {#(''NA, Frenchy'', Some ''Super Burrito'', Some 1000, ''Hell's Chariot'', ''taco_truck''),
       (''NA, Frenchy'', Some ''California Burrito'', Some 700, ''Hell's Chariot'', ''taco_truck''),
       (''NA, Frenchy'', Some ''California Burrito'', Some 700, ''Hell's Chariot'', ''taco_truck'')#} \<and>
   snd main = None \<and>
   set (map oo_id (query_all reversed_store (composed_query 700))) = {1, 2} \<and>
   mset (fst (render reversed_store (query_all reversed_store (composed_query 700)) [])) =
     mset (fst main) \<and>
   snd (render reversed_store (query_all reversed_store (composed_query 700)) []) = None"
proof -
  have fx: "fixture = Inr fixture_store" by code_simp
  have ids: "set (map oo_id (query_all fixture_store (composed_query 700))) = {1, 2}"
    by code_simp
  have m: "main =
     ([(''NA, Frenchy'', Some ''Super Burrito'', Some 1000, ''Hell's Chariot'', ''taco_truck''),
       (''NA, Frenchy'', Some ''California Burrito'', Some 700, ''Hell's Chariot'', ''taco_truck''),
       (''NA, Frenchy'', Some ''California Burrito'', Some 700, ''Hell's Chariot'', ''taco_truck'')],
      None)"
    by code_simp
  have ids': "set (map oo_id (query_all reversed_store (composed_query 700))) = {1, 2}"
    by code_simp
  have r: "render reversed_store (query_all reversed_store (composed_query 700)) [] =
     ([(''NA, Frenchy'', Some ''California Burrito'', Some 700, ''Hell's Chariot'', ''taco_truck''),
       (''NA, Frenchy'', Some ''California Burrito'', Some 700, ''Hell's Chariot'', ''taco_truck''),
       (''NA, Frenchy'', Some ''Super Burrito'', Some 1000, ''Hell's Chariot'', ''taco_truck'')],
      None)"
    by code_simp
  show ?thesis unfolding m r using fx ids ids' by simp
qed

subsection \<open>The unique name of a business\<close>

text \<open>
  C4: in a store that holds a business of some name, the commit of another business of
  that name fails with \<open>IntegrityError\<close>, the violation of the unique constraint, and
  the store, with the first business in it, is as it was.
\<close>

theorem commit_duplicate_name_fails:
  "f \<in> set (food_trucks st) \<Longrightarrow> nft_name t = Some (ft_name f) \<Longrightarrow>
     commit_food_truck t st = (Inl IntegrityError, st) \<and>
     f \<in> set (food_trucks (snd (commit_food_truck t st)))"
  by (simp add: commit_food_truck_def)

theorem commit_duplicate_name_fails_witness:
  "commit_food_truck fixture_truck fixture_store = (Inl IntegrityError, fixture_store) \<and>
   hd (food_trucks fixture_store) \<in>
     set (food_trucks (snd (commit_food_truck fixture_truck fixture_store)))"
proof -
  have mem: "hd (food_trucks fixture_store) \<in> set (food_trucks fixture_store)"
    by code_simp
  have nm: "nft_name fixture_truck = Some (ft_name (hd (food_trucks fixture_store)))"
    by code_simp
  from commit_duplicate_name_fails [OF mem nm] show ?thesis .
qed

subsection \<open>Which orders the query selects\<close>

lemma set_selected:
  "set (map o_id (selected st p)) = (\<lambda>(od, m, f). o_id od) ` set (inner_rows st p)"
proof (intro equalityI subsetI)
  fix k assume "k \<in> set (map o_id (selected st p))"
  then obtain od m where "od \<in> set (orders st)" and "k = o_id od"
    and "m \<in> set (order_menu_items st (o_id od))" and "mi_price m = Some p"
    and "item_businesses st m \<noteq> []"
    by (auto simp: selected_def)
  moreover then obtain f where "f \<in> set (food_trucks st)"
    and "mi_food_truck_id m = Some (ft_id f)"
    by (auto simp: item_businesses_def filter_empty_conv)
  ultimately have "(od, m, f) \<in> set (inner_rows st p)"
    by (simp add: in_inner_rows)
  with \<open>k = o_id od\<close> show "k \<in> (\<lambda>(od, m, f). o_id od) ` set (inner_rows st p)"
    by force
next
  fix k assume "k \<in> (\<lambda>(od, m, f). o_id od) ` set (inner_rows st p)"
  then obtain od m f where "(od, m, f) \<in> set (inner_rows st p)" and "k = o_id od"
    by auto
  then show "k \<in> set (map o_id (selected st p))"
    by (auto simp: in_inner_rows selected_def item_businesses_def filter_empty_conv)
qed

lemma oo_row_selected:
  assumes "obj \<in> set (query_all st q)"
  shows "oo_row obj \<in> set (selected st (q_price q))"
proof -
  from query_all_row [OF assms] obtain m f where
    "(oo_row obj, m, f) \<in> set (inner_rows st (q_price q))" by blast
  then show ?thesis
    by (auto simp: in_inner_rows selected_def item_businesses_def filter_empty_conv)
qed

text \<open>
  C2, as stated: the query returns exactly the orders that include a menu item of the
  given price. It fails where that menu item is on no truck's menu: the order of the
  orphan store includes a menu item of price 700, and the query returns nothing, since
  the inner join through \<open>MenuItem.food_truck\<close> finds no partner for the item.
\<close>

theorem query_drops_order_of_orphan_item_counterexample:
  "map o_id (spec_selected orphan_store 700) = [1] \<and>
   query_all orphan_store (composed_query 700) = []"
  by code_simp

text \<open>
  C2, amended: for every store and price, the query returns exactly the orders that
  include at least one menu item whose price equals the filter value and that belongs
  to a business in the store; every such order appears once, and no other order
  appears.
\<close>

theorem query_selects_orders_with_item_on_a_truck:
  "set (map oo_id (query_all st (composed_query p))) = set (map o_id (selected st p)) \<and>
   set (map oo_row (query_all st (composed_query p))) \<subseteq> set (selected st p) \<and>
   distinct (map oo_id (query_all st (composed_query p)))"
proof -
  have "set (map oo_row (query_all st (composed_query p))) \<subseteq> set (selected st p)"
    using oo_row_selected [of _ st "composed_query p"] by (auto simp: composed_query_def)
  moreover have "q_price (composed_query p) = p"
    by (simp add: composed_query_def)
  ultimately show ?thesis
    unfolding ids_query_all set_selected by (simp add: distinct_query_all)
qed

theorem query_selects_orders_with_item_on_a_truck_witness:
  "set (map o_id (selected fixture_store 700)) = {1, 2} \<and>
   set (map oo_row (query_all fixture_store (composed_query 700)))
     \<subseteq> set (selected fixture_store 700) \<and>
   distinct (map oo_id (query_all fixture_store (composed_query 700)))"
proof -
  have ids: "set (map oo_id (query_all fixture_store (composed_query 700))) = {1, 2}"
    by code_simp
  from query_selects_orders_with_item_on_a_truck [of fixture_store 700] ids
  show ?thesis by metis
qed

subsection \<open>Eager loading and selection\<close>

lemma query_all_first_row:
  assumes "obj \<in> set (query_all st q)"
  shows "\<exists>r rest. r \<in> set (query_rows st q) \<and> obj = fold append_unique rest (new_obj r)"
proof -
  from query_all_group [OF assms] obtain r rest where
    grp: "filter (\<lambda>x. o_id (rr_order x) = oo_id obj) (query_rows st q) = r # rest"
    and obj: "obj = fold append_unique rest (new_obj r)" by blast
  have "r \<in> set (filter (\<lambda>x. o_id (rr_order x) = oo_id obj) (query_rows st q))"
    unfolding grp by simp
  then have "r \<in> set (query_rows st q)" by simp
  with obj show ?thesis by blast
qed

lemma fold_append_unique_unloaded:
  "oo_menu_items obj = Unloaded \<Longrightarrow> fold append_unique rs obj = obj"
  by (induction rs) (simp_all add: append_unique_def)

lemma is_loaded_fold_append_unique:
  "is_loaded (oo_menu_items (fold append_unique rs obj)) = is_loaded (oo_menu_items obj)"
proof (cases "oo_menu_items obj")
  case Unloaded
  then show ?thesis by (simp add: fold_append_unique_unloaded)
next
  case (Loaded ms)
  from fold_append_unique_items [OF this, of rs] show ?thesis
    using Loaded by auto
qed

lemma query_all_materialized:
  assumes "Joinedload_menu_items \<in> set (q_options q)"
    and "Joinedload_customer \<in> set (q_options q)"
    and "Joinedload_employee_food_truck \<in> set (q_options q)"
    and "obj \<in> set (query_all st q)"
  shows "materialized obj"
proof -
  from query_all_first_row [OF assms(4)] obtain r rest where
    r: "r \<in> set (query_rows st q)" and obj: "obj = fold append_unique rest (new_obj r)"
    by blast
  from r assms(1-3) have "is_loaded (rr_menu_item r)" "is_loaded (rr_customer r)"
    "is_loaded (rr_employee r)"
    by (auto simp: in_query_rows menu_item_cols_def customer_cols_def employee_cols_def)
  then have "materialized (new_obj r)"
    by (auto simp: materialized_def new_obj_def split: attr.splits option.splits)
  then show ?thesis
    unfolding obj materialized_def
    by (simp add: is_loaded_fold_append_unique fold_append_unique_scalars)
qed

lemma query_all_unmaterialized:
  assumes "q_options q = []" and "obj \<in> set (query_all st q)"
  shows "unmaterialized obj"
proof -
  from query_all_first_row [OF assms(2)] obtain r rest where
    r: "r \<in> set (query_rows st q)" and obj: "obj = fold append_unique rest (new_obj r)"
    by blast
  from r assms(1) have "rr_menu_item r = Unloaded" "rr_customer r = Unloaded"
    "rr_employee r = Unloaded"
    by (auto simp: in_query_rows menu_item_cols_def customer_cols_def employee_cols_def)
  then have "unmaterialized (new_obj r)"
    by (simp add: unmaterialized_def new_obj_def)
  then show ?thesis
    unfolding obj unmaterialized_def
    by (simp add: is_loaded_fold_append_unique fold_append_unique_scalars)
qed

text \<open>
  C5: for every store and price, the query with its three \<open>joinedload\<close> options and
  the query without them select the same orders; the options decide only what is
  populated: with them every returned order has its menu items, its customer and its
  employee loaded, without them none of the three.
\<close>

theorem eager_options_keep_selection:
  "set (map oo_id (query_all st (composed_query p))) =
     set (map oo_id (query_all st ((composed_query p)\<lparr>q_options := []\<rparr>))) \<and>
   (\<forall>obj \<in> set (query_all st (composed_query p)). materialized obj) \<and>
   (\<forall>obj \<in> set (query_all st ((composed_query p)\<lparr>q_options := []\<rparr>)). unmaterialized obj)"
proof (intro conjI ballI)
  show "set (map oo_id (query_all st (composed_query p))) =
     set (map oo_id (query_all st ((composed_query p)\<lparr>q_options := []\<rparr>)))"
    unfolding ids_query_all by simp
next
  fix obj assume "obj \<in> set (query_all st (composed_query p))"
  then show "materialized obj"
    by (rule query_all_materialized [rotated 3]) (simp_all add: composed_query_def)
next
  fix obj assume "obj \<in> set (query_all st ((composed_query p)\<lparr>q_options := []\<rparr>))"
  then show "unmaterialized obj"
    by (rule query_all_unmaterialized [rotated]) simp
qed

theorem eager_options_keep_selection_witness:
  "set (map oo_id (query_all fixture_store ((composed_query 700)\<lparr>q_options := []\<rparr>))) = {1, 2} \<and>
   materialized (hd (query_all fixture_store (composed_query 700))) \<and>
   unmaterialized (hd (query_all fixture_store ((composed_query 700)\<lparr>q_options := []\<rparr>)))"
proof -
  have ids: "set (map oo_id (query_all fixture_store (composed_query 700))) = {1, 2}"
    by code_simp
  have m1: "hd (query_all fixture_store (composed_query 700))
              \<in> set (query_all fixture_store (composed_query 700))"
    by code_simp
  have m2: "hd (query_all fixture_store ((composed_query 700)\<lparr>q_options := []\<rparr>))
              \<in> set (query_all fixture_store ((composed_query 700)\<lparr>q_options := []\<rparr>))"
    by code_simp
  from eager_options_keep_selection [of fixture_store 700] ids m1 m2 show ?thesis by metis
qed

subsection \<open>No menu item of the price\<close>

lemma inner_rows_empty:
  assumes "\<forall>m \<in> set (menu_items st). mi_price m \<noteq> Some p"
  shows "inner_rows st p = []"
proof -
  have "x \<notin> set (inner_rows st p)" for x
  proof (cases x)
    case (fields od m f)
    show ?thesis
      unfolding fields using assms by (auto simp: in_inner_rows set_order_menu_items)
  qed
  then show ?thesis by (meson last_in_set)
qed

lemma query_all_no_rows: "inner_rows st (q_price q) = [] \<Longrightarrow> query_all st q = []"
  by (simp add: query_all_def query_rows_def instances_Nil)

text \<open>
  C6: in a store where no menu item has the price of the filter, the query returns the
  empty list and the renderer prints no line and raises nothing.
\<close>

theorem no_item_of_price_nothing_rendered:
  "\<forall>m \<in> set (menu_items st). mi_price m \<noteq> Some p \<Longrightarrow>
     query_all st (composed_query p) = [] \<and>
     render st (query_all st (composed_query p)) [] = ([], None)"
  by (simp add: query_all_no_rows inner_rows_empty composed_query_def)

theorem no_item_of_price_nothing_rendered_witness:
  "query_all fixture_store (composed_query 999) = [] \<and>
   render fixture_store (query_all fixture_store (composed_query 999)) [] = ([], None)"
proof -
  have "\<forall>m \<in> set (menu_items fixture_store). mi_price m \<noteq> Some 999"
    by code_simp
  from no_item_of_price_nothing_rendered [OF this] show ?thesis .
qed

subsection \<open>Menu items and their business\<close>

lemma fold_max_ge: "a \<le> fold max ids (a::nat)"
  by (induction ids arbitrary: a) (auto intro: order_trans [OF max.cobounded2])

lemma fold_max_upper: "x \<in> set ids \<Longrightarrow> x \<le> fold max ids (a::nat)"
proof (induction ids arbitrary: a)
  case Nil
  then show ?case by simp
next
  case (Cons y ids)
  show ?case
  proof (cases "x = y")
    case True
    have "x \<le> max y a" using True by simp
    also have "\<dots> \<le> fold max ids (max y a)" by (rule fold_max_ge)
    finally show ?thesis by simp
  next
    case False
    with Cons.prems have "x \<in> set ids" by simp
    from Cons.IH [OF this] show ?thesis by simp
  qed
qed

lemma next_id_fresh: "next_id ids \<notin> set ids"
proof
  assume "next_id ids \<in> set ids"
  from fold_max_upper [OF this, of 0] show False by (simp add: next_id_def)
qed

lemma food_trucks_insert_employee [simp]:
  "food_trucks (insert_employee fk p st) = food_trucks st"
  by (simp add: insert_employee_def insert_person_def Let_def)

lemma food_trucks_insert_menu_item [simp]:
  "food_trucks (insert_menu_item fk m st) = food_trucks st"
  by (simp add: insert_menu_item_def)

lemma food_trucks_insert_order [simp]:
  "food_trucks (insert_order n st) = food_trucks st"
  by (simp add: insert_order_def Let_def)

lemma food_trucks_fold_insert_employee:
  "food_trucks (fold (insert_employee fk) ps st) = food_trucks st"
  by (induction ps arbitrary: st) simp_all

lemma food_trucks_fold_insert_menu_item:
  "food_trucks (fold (insert_menu_item fk) ms st) = food_trucks st"
  by (induction ms arbitrary: st) simp_all

lemma food_trucks_commit_orders: "food_trucks (commit_orders ns st) = food_trucks st"
  unfolding commit_orders_def by (induction ns arbitrary: st) simp_all

lemma food_trucks_insert_customer: "food_trucks (snd (insert_customer p st)) = food_trucks st"
  by (simp add: insert_customer_def insert_person_def Let_def)

lemma at_most_one_business:
  "distinct (map ft_id fs) \<Longrightarrow> length (filter (\<lambda>f. fk = Some (ft_id f)) fs) \<le> 1"
proof (induction fs)
  case Nil
  show ?case by simp
next
  case (Cons f fs)
  show ?case
  proof (cases "fk = Some (ft_id f)")
    case True
    with Cons.prems have "filter (\<lambda>g. fk = Some (ft_id g)) fs = []"
      by (auto simp: filter_empty_conv)
    with True show ?thesis by simp
  next
    case False
    with Cons show ?thesis by simp
  qed
qed

lemma menu_items_insert_employee [simp]:
  "menu_items (insert_employee fk p st) = menu_items st"
  by (simp add: insert_employee_def insert_person_def Let_def)

lemma menu_items_fold_insert_employee:
  "menu_items (fold (insert_employee fk) ps st) = menu_items st"
  by (induction ps arbitrary: st) simp_all

lemma menu_items_insert_order [simp]:
  "menu_items (insert_order n st) = menu_items st"
  by (simp add: insert_order_def Let_def)

lemma menu_items_commit_orders: "menu_items (commit_orders ns st) = menu_items st"
  unfolding commit_orders_def by (induction ns arbitrary: st) simp_all

lemma menu_items_insert_customer: "menu_items (snd (insert_customer p st)) = menu_items st"
  by (simp add: insert_customer_def insert_person_def Let_def)

lemma in_menu_items_fold_insert:
  "m \<in> set (menu_items (fold (insert_menu_item fk) ms st)) \<Longrightarrow>
     m \<in> set (menu_items st) \<or> mi_food_truck_id m = fk"
proof (induction ms arbitrary: st)
  case Nil
  then show ?case by simp
next
  case (Cons x ms)
  from Cons.IH [of "insert_menu_item fk x st"] Cons.prems
  show ?case by (auto simp: insert_menu_item_def)
qed

lemma exactly_one_business:
  assumes "distinct (map ft_id fs)" and "fid \<in> set (map ft_id fs)"
  shows "length (filter (\<lambda>f. Some fid = Some (ft_id f)) fs) = 1"
proof -
  from assms(2) have "filter (\<lambda>f. Some fid = Some (ft_id f)) fs \<noteq> []"
    by (auto simp: filter_empty_conv)
  then have "0 < length (filter (\<lambda>f. Some fid = Some (ft_id f)) fs)" by simp
  moreover from at_most_one_business [OF assms(1), of "Some fid"]
  have "length (filter (\<lambda>f. Some fid = Some (ft_id f)) fs) \<le> 1" .
  ultimately show ?thesis by linarith
qed

lemma item_businesses_cong:
  "food_trucks st' = food_trucks st \<Longrightarrow> item_businesses st' m = item_businesses st m"
  by (simp add: item_businesses_def)

lemma items_owned_cong:
  "food_trucks st' = food_trucks st \<Longrightarrow> menu_items st' = menu_items st \<Longrightarrow>
     items_owned st' = items_owned st"
  by (simp add: items_owned_def truck_keys_ok_def item_businesses_def)

lemma items_owned_new_truck:
  assumes own: "items_owned st"
    and trucks: "food_trucks st' = food_trucks st @ [f]"
    and fresh: "ft_id f \<notin> set (map ft_id (food_trucks st))"
    and items: "\<And>m. m \<in> set (menu_items st') \<Longrightarrow>
                  m \<in> set (menu_items st) \<or> mi_food_truck_id m = Some (ft_id f)"
  shows "items_owned st'"
proof -
  have keys: "truck_keys_ok st'"
    using own fresh by (simp add: items_owned_def truck_keys_ok_def trucks)
  have "length (item_businesses st' m) = 1" if m: "m \<in> set (menu_items st')" for m
  proof (cases "mi_food_truck_id m = Some (ft_id f)")
    case True
    have "ft_id f \<in> set (map ft_id (food_trucks st'))" by (simp add: trucks)
    from exactly_one_business [OF _ this] keys show ?thesis
      by (simp add: item_businesses_def truck_keys_ok_def True)
  next
    case False
    with items [OF m] have "m \<in> set (menu_items st)" by simp
    with own have "length (item_businesses st m) = 1" by (simp add: items_owned_def)
    with False show ?thesis by (simp add: item_businesses_def trucks)
  qed
  with keys show ?thesis by (simp add: items_owned_def)
qed

lemma items_owned_commit_food_truck:
  assumes "items_owned st"
  shows "items_owned (snd (commit_food_truck t st))"
proof (cases "nft_name t")
  case None
  with assms show ?thesis by (simp add: commit_food_truck_def)
next
  case (Some n)
  show ?thesis
  proof (cases "n \<in> set (map ft_name (food_trucks st))")
    case True
    with Some assms show ?thesis by (simp add: commit_food_truck_def)
  next
    case False
    let ?fid = "next_id (map ft_id (food_trucks st))"
    let ?f = "\<lparr>ft_id = ?fid, ft_type = polymorphic_identity (nft_class t), ft_name = n\<rparr>"
    let ?st1 = "st\<lparr>food_trucks := food_trucks st @ [?f],
                   taco_trucks := taco_trucks st @ (if nft_class t = TacoTruck then [?fid] else [])\<rparr>"
    let ?st2 = "fold (insert_employee (Some ?fid)) (nft_employees t) ?st1"
    let ?st3 = "fold (insert_menu_item (Some ?fid)) (nft_menu_items t) ?st2"
    have res: "snd (commit_food_truck t st) = ?st3"
      using Some False by (simp add: commit_food_truck_def Let_def)
    have trucks: "food_trucks ?st3 = food_trucks st @ [?f]"
      by (simp add: food_trucks_fold_insert_menu_item food_trucks_fold_insert_employee)
    have fresh: "ft_id ?f \<notin> set (map ft_id (food_trucks st))"
      using next_id_fresh [of "map ft_id (food_trucks st)"] by simp
    have items: "m \<in> set (menu_items st) \<or> mi_food_truck_id m = Some (ft_id ?f)"
      if "m \<in> set (menu_items ?st3)" for m
      using in_menu_items_fold_insert [OF that]
      by (simp add: menu_items_fold_insert_employee)
    show ?thesis
      unfolding res by (rule items_owned_new_truck [OF assms trucks fresh items])
  qed
qed

text \<open>
  C7, as stated: every menu item belongs to exactly one business, and cannot exist
  without one. \<open>food_truck_id\<close> is a nullable column: the INSERT of a menu item that is
  in no truck's collection stores it with NULL there, and the item has no business.
\<close>

theorem item_without_business_counterexample:
  "menu_items (insert_menu_item None orphan_item create_all) =
     [\<lparr>mi_id = 1, mi_price = Some 700, mi_name = Some ''Street Taco'', mi_food_truck_id = None\<rparr>] \<and>
   item_businesses (insert_menu_item None orphan_item create_all)
     \<lparr>mi_id = 1, mi_price = Some 700, mi_name = Some ''Street Taco'', mi_food_truck_id = None\<rparr> = []"
  by code_simp

text \<open>
  C7, amended: every menu item that is written through the \<open>menu_items\<close> collection of
  a business, as every menu item that \<open>main\<close> writes is, belongs to exactly one
  business: that every menu item in the store belongs to exactly one business holds in
  the empty store and is preserved by every write that \<open>main\<close> performs, the commit of a
  business with its menu and staff, of a customer and of orders. A menu item inserted
  outside every collection has no business; and wherever the keys of the businesses
  are distinct, no menu item is shared across two of them.
\<close>

theorem items_owned_invariant:
  "items_owned create_all \<and>
   (items_owned st \<longrightarrow>
      items_owned (snd (commit_food_truck t st)) \<and>
      items_owned (snd (insert_customer c st)) \<and>
      items_owned (commit_orders ns st)) \<and>
   (truck_keys_ok st' \<longrightarrow> unshared st')"
proof (intro conjI impI)
  show "items_owned create_all"
    by (simp add: items_owned_def truck_keys_ok_def create_all_def)
next
  assume own: "items_owned st"
  show "items_owned (snd (commit_food_truck t st))"
    using own by (rule items_owned_commit_food_truck)
  show "items_owned (snd (insert_customer c st))"
    using own
    by (simp add: items_owned_cong [OF food_trucks_insert_customer menu_items_insert_customer])
  show "items_owned (commit_orders ns st)"
    using own
    by (simp add: items_owned_cong [OF food_trucks_commit_orders menu_items_commit_orders])
next
  assume "truck_keys_ok st'"
  then show "unshared st'"
    unfolding unshared_def item_businesses_def truck_keys_ok_def
    by (blast intro: at_most_one_business)
qed

text \<open>
  On the fixture: the commit of a second truck succeeds and leaves every menu item
  with one business, as do the commit of a customer and of a further order; and no
  menu item is shared in the store that holds the menu item without a business.
\<close>

theorem items_owned_invariant_witness:
  "fst (commit_food_truck second_truck fixture_store) = Inr 2 \<and>
   length (menu_items (snd (commit_food_truck second_truck fixture_store))) = 4 \<and>
   items_owned (snd (commit_food_truck second_truck fixture_store)) \<and>
   items_owned (snd (insert_customer fixture_customer fixture_store)) \<and>
   items_owned (commit_orders [second_order] fixture_store) \<and>
   unshared (insert_menu_item None orphan_item fixture_store)"
proof -
  have ok: "fst (commit_food_truck second_truck fixture_store) = Inr 2" by code_simp
  have len: "length (menu_items (snd (commit_food_truck second_truck fixture_store))) = 4"
    by code_simp
  have own: "items_owned fixture_store" by code_simp
  have keys: "truck_keys_ok (insert_menu_item None orphan_item fixture_store)" by code_simp
  from items_owned_invariant
         [of fixture_store second_truck fixture_customer "[second_order]"
             "insert_menu_item None orphan_item fixture_store"]
       ok len own keys
  show ?thesis by blast
qed

subsection \<open>An order that nobody served\<close>

lemma print_args_no_employee:
  "get_employee st obj = None \<Longrightarrow> print_args st obj m = Inl AttributeError"
  by (simp add: print_args_def split: option.splits)

lemma print_args_error: "print_args st obj m = Inl e \<Longrightarrow> e = AttributeError"
  by (auto simp: print_args_def split: option.splits)

lemma render_items_error:
  "snd (render_items st obj ms out) = Some e \<Longrightarrow> e = AttributeError"
  by (induction ms arbitrary: out) (auto split: sum.splits dest: print_args_error)

lemma render_items_no_employee:
  "get_employee st obj = None \<Longrightarrow> ms \<noteq> [] \<Longrightarrow>
     snd (render_items st obj ms out) = Some AttributeError"
  by (cases ms) (simp_all add: print_args_no_employee)

lemma render_faults:
  assumes "get_employee st obj = None" and "get_menu_items st obj \<noteq> []"
  shows "obj \<in> set objs \<Longrightarrow> snd (render st objs out) = Some AttributeError"
proof (induction objs arbitrary: out)
  case Nil
  then show ?case by simp
next
  case (Cons x objs)
  obtain out' res where ri: "render_items st x (get_menu_items st x) out = (out', res)"
    by (cases "render_items st x (get_menu_items st x) out")
  show ?case
  proof (cases res)
    case (Some e)
    with ri render_items_error [of st x "get_menu_items st x" out e]
    show ?thesis by simp
  next
    case None
    have "x \<noteq> obj"
    proof
      assume "x = obj"
      with render_items_no_employee [OF assms, of out] ri None show False by simp
    qed
    with Cons.prems have "obj \<in> set objs" by simp
    from Cons.IH [OF this] ri None show ?thesis by simp
  qed
qed

text \<open>
  C8: when the result of the query contains an order whose employee is null, rendering
  the result raises \<open>AttributeError\<close>, which propagates: every returned order has a
  menu item, and the first line of that order cannot be printed. (An earlier order may
  raise it first; no other error can arise in the loop.)
\<close>

theorem render_faults_on_null_employee:
  assumes "obj \<in> set (query_all st (composed_query p))" and "oo_employee obj = Loaded None"
  shows "snd (render st (query_all st (composed_query p)) []) = Some AttributeError"
proof -
  have "Joinedload_menu_items \<in> set (q_options (composed_query p))"
    by (simp add: composed_query_def)
  from query_all_items [OF this assms(1)] have items: "get_menu_items st obj \<noteq> []"
    by (auto simp: get_menu_items_def)
  have emp: "get_employee st obj = None"
    using assms(2) by (simp add: get_employee_def)
  from render_faults [OF emp items assms(1)] show ?thesis .
qed

theorem render_faults_on_null_employee_witness:
  "snd (render unserved_store (query_all unserved_store (composed_query 700)) [])
     = Some AttributeError"
proof -
  have mem: "last (query_all unserved_store (composed_query 700))
              \<in> set (query_all unserved_store (composed_query 700))"
    by code_simp
  have emp: "oo_employee (last (query_all unserved_store (composed_query 700))) = Loaded None"
    by code_simp
  from render_faults_on_null_employee [OF mem emp] show ?thesis .
qed

subsection \<open>Issuing the query twice\<close>

lemma query_all_views:
  assumes inj_o: "inj_on o_id (set (orders st))" and inj_m: "inj_on mi_id (set (menu_items st))"
  shows "set (map row_view (query_all st (composed_query p))) =
           (\<lambda>od. (od, set (order_menu_items st (o_id od)))) ` set (selected st p)"
proof (intro equalityI subsetI)
  have opt: "Joinedload_menu_items \<in> set (q_options (composed_query p))"
    and pr: "q_price (composed_query p) = p"
    by (simp_all add: composed_query_def)
  {
    fix v assume "v \<in> set (map row_view (query_all st (composed_query p)))"
    then obtain obj where obj: "obj \<in> set (query_all st (composed_query p))"
      and v: "v = row_view obj" by auto
    from oo_row_selected [OF obj] have sel: "oo_row obj \<in> set (selected st p)"
      by (simp add: pr)
    from query_all_items_inj [OF opt obj inj_m] obtain ms where
      "oo_menu_items obj = Loaded ms" and "set ms = set (order_menu_items st (oo_id obj))"
      by blast
    then have "v = (oo_row obj, set (order_menu_items st (o_id (oo_row obj))))"
      by (simp add: v row_view_def oo_id_def)
    with sel show "v \<in> (\<lambda>od. (od, set (order_menu_items st (o_id od)))) ` set (selected st p)"
      by blast
  }
  {
    fix v assume "v \<in> (\<lambda>od. (od, set (order_menu_items st (o_id od)))) ` set (selected st p)"
    then obtain od where od: "od \<in> set (selected st p)"
      and v: "v = (od, set (order_menu_items st (o_id od)))" by auto
    from od have "o_id od \<in> set (map o_id (selected st p))" by simp
    then have "o_id od \<in> set (map oo_id (query_all st (composed_query p)))"
      unfolding ids_query_all set_selected pr .
    then obtain obj where obj: "obj \<in> set (query_all st (composed_query p))"
      and key: "oo_id obj = o_id od" by auto
    from oo_row_selected [OF obj] have "oo_row obj \<in> set (selected st p)"
      by (simp add: pr)
    then have "oo_row obj \<in> set (orders st)" and "od \<in> set (orders st)"
      using od by (simp_all add: selected_def)
    with inj_o key have row: "oo_row obj = od"
      by (auto simp: oo_id_def dest: inj_onD)
    from query_all_items_inj [OF opt obj inj_m] obtain ms where
      "oo_menu_items obj = Loaded ms" and "set ms = set (order_menu_items st (oo_id obj))"
      by blast
    then have "row_view obj = v"
      by (simp add: v row_view_def row key)
    with obj show "v \<in> set (map row_view (query_all st (composed_query p)))"
      by force
  }
qed

lemma same_tables_selected:
  assumes "same_tables st st'"
  shows "(\<lambda>od. (od, set (order_menu_items st (o_id od)))) ` set (selected st p) =
         (\<lambda>od. (od, set (order_menu_items st' (o_id od)))) ` set (selected st' p)"
proof -
  have items: "set (order_menu_items st k) = set (order_menu_items st' k)" for k
    using assms by (simp add: set_order_menu_items same_tables_def)
  have "item_businesses st m \<noteq> [] \<longleftrightarrow> item_businesses st' m \<noteq> []" for m
    using assms by (simp add: item_businesses_def filter_empty_conv same_tables_def)
  then have "set (selected st p) = set (selected st' p)"
    using assms items by (auto simp: selected_def same_tables_def)
  then show ?thesis using items by simp
qed

text \<open>
  C9: two executions of the query against the same rows return row-equivalent results:
  the same set of orders, each with the same set of menu items. The second execution
  may meet the tables enumerated in another order (the statement has no ORDER BY); the
  keys of \<open>order\<close> and \<open>menu_item\<close> are distinct, as primary keys are.
\<close>

theorem query_twice_row_equivalent:
  assumes "distinct (map o_id (orders st))" and "distinct (map mi_id (menu_items st))"
    and "same_tables st st'"
  shows "set (map row_view (query_all st (composed_query p))) =
         set (map row_view (query_all st' (composed_query p)))"
proof -
  have inj: "inj_on o_id (set (orders st))" "inj_on mi_id (set (menu_items st))"
    using assms(1,2) by (simp_all add: distinct_map)
  then have inj': "inj_on o_id (set (orders st'))" "inj_on mi_id (set (menu_items st'))"
    using assms(3) by (simp_all add: same_tables_def)
  show ?thesis
    unfolding query_all_views [OF inj] query_all_views [OF inj']
    by (rule same_tables_selected [OF assms(3)])
qed

theorem query_twice_row_equivalent_witness:
  "set (map row_view (query_all fixture_store (composed_query 700))) =
   set (map row_view (query_all reversed_store (composed_query 700)))"
proof -
  have a: "distinct (map o_id (orders fixture_store))" by code_simp
  have b: "distinct (map mi_id (menu_items fixture_store))" by code_simp
  have c: "same_tables fixture_store reversed_store"
    by (simp add: same_tables_def reversed_store_def)
  from query_twice_row_equivalent [OF a b c] show ?thesis .
qed

subsection \<open>The collection of a selected order\<close>

text \<open>
  C10: for every order that the query returns, the eagerly loaded \<open>menu_items\<close>
  collection holds all the menu items that the association table links to the order,
  whatever their price: the filter restricts the orders, not their collections. (The
  keys of \<open>menu_item\<close> are distinct, as primary keys are.)
\<close>

theorem eager_collection_holds_all_linked_items:
  assumes "distinct (map mi_id (menu_items st))"
    and "obj \<in> set (query_all st (composed_query p))"
  shows "\<exists>ms. oo_menu_items obj = Loaded ms \<and>
           set ms = {m \<in> set (menu_items st). \<exists>j \<in> set (menu_item_orders st).
                       mio_order_id j = Some (oo_id obj) \<and>
                       mio_menu_item_id j = Some (mi_id m)}"
proof -
  have "Joinedload_menu_items \<in> set (q_options (composed_query p))"
    by (simp add: composed_query_def)
  moreover have "inj_on mi_id (set (menu_items st))"
    using assms(1) by (simp add: distinct_map)
  ultimately show ?thesis
    using query_all_items_inj [of "composed_query p" obj st] assms(2)
    unfolding set_order_menu_items by blast
qed

theorem eager_collection_holds_all_linked_items_witness:
  "map mi_price (get_menu_items fixture_store (hd (query_all fixture_store (composed_query 700))))
     = [Some 1000, Some 700] \<and>
   (\<exists>ms. oo_menu_items (hd (query_all fixture_store (composed_query 700))) = Loaded ms \<and>
      set ms = {m \<in> set (menu_items fixture_store). \<exists>j \<in> set (menu_item_orders fixture_store).
                  mio_order_id j = Some (oo_id (hd (query_all fixture_store (composed_query 700)))) \<and>
                  mio_menu_item_id j = Some (mi_id m)})"
proof -
  have keys: "distinct (map mi_id (menu_items fixture_store))" by code_simp
  have mem: "hd (query_all fixture_store (composed_query 700))
               \<in> set (query_all fixture_store (composed_query 700))"
    by code_simp
  have prices: "map mi_price (get_menu_items fixture_store
                  (hd (query_all fixture_store (composed_query 700)))) = [Some 1000, Some 700]"
    by code_simp
  from eager_collection_holds_all_linked_items [OF keys mem] prices show ?thesis by blast
qed

end
